theory Spec2Isabelle
  imports Complex_Main
begin

section \<open>Numbers and strings\<close>

text \<open>
  JavaScript numbers are modelled as exact rationals: every finite double is a rational,
  and the comparisons and sums of the player are read in exact arithmetic. The rounding
  of doubles, \<open>NaN\<close> and the infinities are not part of the model. Strings are lists of
  characters; \<open>length\<close> counts them as JavaScript counts code units.
\<close>

definition LF :: char where
  "LF = CHR 0x0A"

definition CR :: char where
  "CR = CHR 0x0D"

definition is_digit :: "char \<Rightarrow> bool" where
  "is_digit c = (c \<in> set ''0123456789'')"

text \<open>The white space of \<open>String.prototype.trim\<close> and of \<open>\s\<close>, among 8-bit characters.\<close>

definition is_space :: "char \<Rightarrow> bool" where
  "is_space c = (c \<in> set [CHR 0x09, CHR 0x0A, CHR 0x0B, CHR 0x0C, CHR 0x0D, CHR 0x20, CHR 0xA0])"

text \<open>The line terminators that \<open>.\<close> does not match in a regular expression.\<close>

definition is_line_terminator :: "char \<Rightarrow> bool" where
  "is_line_terminator c = (c = LF \<or> c = CR)"

definition trim :: "string \<Rightarrow> string" where
  "trim s = rev (dropWhile is_space (rev (dropWhile is_space s)))"

text \<open>\<open>s.split(c)\<close> for a one-character separator: the empty string gives one empty piece.\<close>

fun split_on :: "char \<Rightarrow> string \<Rightarrow> string list" where
  "split_on c [] = [[]]"
| "split_on c (x # xs) =
     (if x = c then [] # split_on c xs
      else (case split_on c xs of [] \<Rightarrow> [[x]] | p # ps \<Rightarrow> (x # p) # ps))"

definition digit_char :: "nat \<Rightarrow> char" where
  "digit_char n = ''0123456789'' ! (n mod 10)"

text \<open>The value of a decimal digit: its position among the ten digit characters.\<close>

definition digit_val :: "char \<Rightarrow> nat" where
  "digit_val c = length (takeWhile (\<lambda>d. d \<noteq> c) ''0123456789'') mod 10"

text \<open>The value of a string of decimal digits, most significant digit first.\<close>

definition nat_of_digits :: "string \<Rightarrow> nat" where
  "nat_of_digits ds = foldl (\<lambda>a c. 10 * a + digit_val c) 0 ds"

text \<open>\<open>Number.prototype.toString\<close> on an integer value (decimal notation).\<close>

fun toString_nat :: "nat \<Rightarrow> string" where
  "toString_nat n = (if n < 10 then [digit_char n] else toString_nat (n div 10) @ [digit_char n])"

declare toString_nat.simps [simp del]





section \<open>Time codec (constants.ts)\<close>


text \<open>The two-digit, zero-padded decimal numeral of a number below 100.\<close>

definition two_digits :: "nat \<Rightarrow> string" where
  "two_digits n = [digit_char (n div 10), digit_char n]"

section \<open>Data model (types.ts)\<close>

record Sentence =
  sentence_id :: string
  sentence_text :: string
  startTime :: rat
  endTime :: rat
  loopCount :: int

text \<open>
  \<open>generateId\<close> draws from \<open>Math.random\<close>. The model takes the identifiers from a
  parameter \<open>ids\<close>: the sentence pushed at position \<open>n\<close> of an import gets \<open>ids n\<close>.
\<close>

type_synonym id_source = "nat \<Rightarrow> string"

section \<open>Plain-text import (constants.ts)\<close>

text \<open>
  \<open>parseFloat\<close> on a string that starts with a decimal numeral \<open>digits[.digits]\<close>, as
  the groups of the marker pattern do: the exact value of the numeral.
\<close>

definition parseFloat :: "string \<Rightarrow> rat" where
  "parseFloat s =
     (let ip = takeWhile is_digit s;
          r = dropWhile is_digit s;
          fp = takeWhile is_digit (drop 1 r)
      in of_nat (nat_of_digits ip)
         + (if take 1 r = ''.'' then of_nat (nat_of_digits fp) / 10 ^ length fp else 0))"

text \<open>
  \<open>Number(x.toFixed(2))\<close>: the nearest multiple of 0.01, ties going up in magnitude
  (\<open>toFixed\<close> rounds \<open>-x\<close> and puts the sign back when \<open>x\<close> is negative). This is the
  fixed notation, which \<open>toFixed\<close> writes for numbers below \<open>10^21\<close>.
\<close>

definition toFixed2 :: "rat \<Rightarrow> rat" where
  "toFixed2 x =
     (if x < 0 then - (of_int \<lfloor>- x * 100 + 1 / 2\<rfloor> / 100)
      else of_int \<lfloor>x * 100 + 1 / 2\<rfloor> / 100)"

text \<open>The piece \<open>\d+(?:\.\d+)?\<close> of the marker pattern: the matched text and what follows.\<close>

definition match_number :: "string \<Rightarrow> (string \<times> string) option" where
  "match_number s =
     (let ip = takeWhile is_digit s; r = dropWhile is_digit s
      in if ip = [] then None
         else (case r of
                 [] \<Rightarrow> Some (ip, r)
               | c # r' \<Rightarrow>
                   if c = CHR ''.'' \<and> takeWhile is_digit r' \<noteq> []
                   then Some (ip @ c # takeWhile is_digit r', dropWhile is_digit r')
                   else Some (ip, r)))"

definition expect :: "char \<Rightarrow> string \<Rightarrow> string option" where
  "expect c s = (case s of [] \<Rightarrow> None | x # r \<Rightarrow> if x = c then Some r else None)"

text \<open>
  \<open>trimmed.match(/^\[(\d+(?:\.\d+)?)-(\d+(?:\.\d+)?)\]\s*(.*)$/)\<close>: the three groups, or
  \<open>None\<close> for \<open>null\<close>. The pattern leaves the matcher no choice: each numeral takes all
  its digits, \<open>\s*\<close> all the white space, and \<open>.*\<close> has to reach the end of the string
  without meeting a line terminator.
\<close>

definition markerRegex :: "string \<Rightarrow> (string \<times> string \<times> string) option" where
  "markerRegex s =
     (case expect (CHR ''['') s of None \<Rightarrow> None | Some r0 \<Rightarrow>
      case match_number r0 of None \<Rightarrow> None | Some (g1, r1) \<Rightarrow>
      case expect (CHR ''-'') r1 of None \<Rightarrow> None | Some r2 \<Rightarrow>
      case match_number r2 of None \<Rightarrow> None | Some (g2, r3) \<Rightarrow>
      case expect (CHR '']'') r3 of None \<Rightarrow> None | Some r4 \<Rightarrow>
        (let g3 = dropWhile is_space r4
         in if list_ex is_line_terminator g3 then None else Some (g1, g2, g3)))"

text \<open>
  The body of \<open>lines.forEach\<close>: the state is the pair of the local variables
  \<open>sentences\<close> and \<open>currentTime\<close>.
\<close>

definition txt_line :: "id_source \<Rightarrow> Sentence list \<times> rat \<Rightarrow> string \<Rightarrow> Sentence list \<times> rat" where
  "txt_line ids st line =
     (let sentences = fst st; currentTime = snd st; trimmed = trim line
      in case markerRegex trimmed of
           Some (g1, g2, g3) \<Rightarrow>
             (let start = parseFloat g1; end = parseFloat g2
              in (sentences @ [\<lparr>sentence_id = ids (length sentences), sentence_text = g3,
                                 startTime = start, endTime = end, loopCount = 1\<rparr>], end))
         | None \<Rightarrow>
             (let duration = max 2 (min 10 (of_nat (length trimmed) * (1 / 10)));
                  start = toFixed2 currentTime;
                  end = toFixed2 (currentTime + duration)
              in (sentences @ [\<lparr>sentence_id = ids (length sentences), sentence_text = trimmed,
                                 startTime = start, endTime = end, loopCount = 1\<rparr>], end)))"

text \<open>\<open>content.split('\n').filter(l => l.trim().length > 0)\<close>\<close>

definition txt_lines :: "string \<Rightarrow> string list" where
  "txt_lines content = filter (\<lambda>l. length (trim l) > 0) (split_on LF content)"

definition txt_run :: "id_source \<Rightarrow> string list \<Rightarrow> Sentence list \<times> rat" where
  "txt_run ids ls = foldl (txt_line ids) ([], 0) ls"

definition parseTxtContent :: "id_source \<Rightarrow> string \<Rightarrow> Sentence list" where
  "parseTxtContent ids content = fst (txt_run ids (txt_lines content))"

section \<open>Subtitle import (constants.ts, TextEditor.tsx, PlayerPage.tsx)\<close>

text \<open>
  \<open>parseSrtTime\<close> on a time stamp \<open>HH:MM:SS,mmm\<close>, the only strings it is called on
  (groups 2 and 3 of the cue pattern). On a string with fewer pieces JavaScript computes
  \<open>NaN\<close>, which the model does not have; it gives 0 there.
\<close>

definition parseSrtTime :: "string \<Rightarrow> rat" where
  "parseSrtTime timeString =
     (case split_on (CHR '','') timeString of
        time # ms # _ \<Rightarrow>
          (case map nat_of_digits (split_on (CHR '':'') time) of
             h # m # s # _ \<Rightarrow> of_nat h * 3600 + of_nat m * 60 + of_nat s + of_nat (nat_of_digits ms) / 1000
           | _ \<Rightarrow> 0)
      | _ \<Rightarrow> 0)"

text \<open>\<open>\d{2}:\d{2}:\d{2},\d{3}\<close>: in the template, \<open>d\<close> stands for a digit.\<close>

definition timestamp_shape :: "string \<Rightarrow> bool" where
  "timestamp_shape t =
     (length t = 12 \<and>
      list_all (\<lambda>(p, c). if p = CHR ''d'' then is_digit c else c = p) (zip ''dd:dd:dd,ddd'' t))"

definition match_timestamp :: "string \<Rightarrow> (string \<times> string) option" where
  "match_timestamp s = (if timestamp_shape (take 12 s) then Some (take 12 s, drop 12 s) else None)"

text \<open>The lookahead \<open>(?=\n\n|\n*$)\<close>: a blank line follows, or only line feeds are left.\<close>

definition cue_end :: "string \<Rightarrow> bool" where
  "cue_end s = (take 2 s = [LF, LF] \<or> list_all (\<lambda>c. c = LF) s)"

text \<open>The lazy group \<open>([\s\S]*?)\<close>: the shortest text after which the lookahead holds.\<close>

fun lazy_body :: "string \<Rightarrow> string" where
  "lazy_body [] = []"
| "lazy_body (c # r) = (if cue_end (c # r) then [] else c # lazy_body r)"

text \<open>
  One attempt of the cue pattern
  \<open>(\d+)\n(\d{2}:\d{2}:\d{2},\d{3}) --> (\d{2}:\d{2}:\d{2},\d{3})\n([\s\S]*?)(?=\n\n|\n*$)\<close>
  at the start of \<open>s\<close>: the four groups and the length of the match.
\<close>

definition match_cue :: "string \<Rightarrow> ((string \<times> string \<times> string \<times> string) \<times> nat) option" where
  "match_cue s =
     (let g1 = takeWhile is_digit s
      in if g1 = [] then None
         else
           case expect LF (dropWhile is_digit s) of None \<Rightarrow> None | Some r1 \<Rightarrow>
           case match_timestamp r1 of None \<Rightarrow> None | Some (g2, r2) \<Rightarrow>
           if take 5 r2 \<noteq> '' --> '' then None
           else
             case match_timestamp (drop 5 r2) of None \<Rightarrow> None | Some (g3, r3) \<Rightarrow>
             case expect LF r3 of None \<Rightarrow> None | Some r4 \<Rightarrow>
               Some ((g1, g2, g3, lazy_body r4), length g1 + 31 + length (lazy_body r4)))"

text \<open>
  The loop \<open>while ((match = regex.exec(content)) !== null)\<close> of a global pattern: each
  search starts where the last match ended (\<open>lastIndex\<close>) and takes the leftmost match.
  \<open>skip\<close> counts the characters still inside the last match.
\<close>

fun srt_cues :: "nat \<Rightarrow> string \<Rightarrow> (string \<times> string \<times> string \<times> string) list" where
  "srt_cues skip [] = []"
| "srt_cues skip (c # r) =
     (if skip > 0 then srt_cues (skip - 1) r
      else (case match_cue (c # r) of
              Some (g, n) \<Rightarrow> g # srt_cues (n - 1) r
            | None \<Rightarrow> srt_cues 0 r))"

text \<open>\<open>match[4].replace(/\n/g, ' ')\<close>\<close>

definition join_lines :: "string \<Rightarrow> string" where
  "join_lines s = map (\<lambda>c. if c = LF then CHR '' '' else c) s"

text \<open>The sentences pushed by the loop over the cues, in \<open>processContent\<close>.\<close>

definition srt_sentences :: "id_source \<Rightarrow> string \<Rightarrow> Sentence list" where
  "srt_sentences ids content =
     map (\<lambda>(n, (g1, g2, g3, g4)).
            \<lparr>sentence_id = ids n, sentence_text = join_lines g4,
             startTime = parseSrtTime g2, endTime = parseSrtTime g3, loopCount = 1\<rparr>)
         (enumerate 0 (srt_cues 0 content))"

text \<open>\<open>processContent\<close> hands its sentences to \<open>onImportText\<close>; the model returns them.\<close>

definition processContent :: "id_source \<Rightarrow> string \<Rightarrow> bool \<Rightarrow> Sentence list" where
  "processContent ids content isSrt =
     (if isSrt then srt_sentences ids content else parseTxtContent ids content)"

text \<open>
  \<open>handleTranscribe\<close>, once the transcript \<open>srtText\<close> has arrived: the same loop, with a
  local copy \<open>parseTime\<close> of \<open>parseSrtTime\<close>. The result is the new value of the page's
  \<open>sentences\<close>: an empty list of cues leaves them as they were (and alerts the user).
\<close>

definition parseTime :: "string \<Rightarrow> rat" where
  "parseTime str =
     (case split_on (CHR '','') str of
        t # ms # _ \<Rightarrow>
          (case map nat_of_digits (split_on (CHR '':'') t) of
             h # m # s # _ \<Rightarrow> of_nat h * 3600 + of_nat m * 60 + of_nat s + of_nat (nat_of_digits ms) / 1000
           | _ \<Rightarrow> 0)
      | _ \<Rightarrow> 0)"

definition transcribed_sentences :: "id_source \<Rightarrow> string \<Rightarrow> Sentence list" where
  "transcribed_sentences ids srtText =
     map (\<lambda>(n, (g1, g2, g3, g4)).
            \<lparr>sentence_id = ids n, sentence_text = join_lines g4,
             startTime = parseTime g2, endTime = parseTime g3, loopCount = 1\<rparr>)
         (enumerate 0 (srt_cues 0 srtText))"

definition handleTranscribe :: "id_source \<Rightarrow> string \<Rightarrow> Sentence list \<Rightarrow> Sentence list" where
  "handleTranscribe ids srtText sentences =
     (let newSentences = transcribed_sentences ids srtText
      in if length newSentences > 0 then newSentences else sentences)"

text \<open>An identifier source for the examples: \<open>s0\<close>, \<open>s1\<close>, ...\<close>

definition counter_ids :: id_source where
  "counter_ids n = CHR ''s'' # toString_nat n"

text \<open>Example inputs: a text with one bracketed and one free line, and a one-cue subtitle.\<close>

definition example_txt :: string where
  "example_txt = ''[1-2.5] a'' @ [LF] @ ''hello world''"

definition example_srt :: string where
  "example_srt = ''1'' @ [LF] @ ''00:00:01,000 --> 00:00:02,500'' @ [LF] @ ''Hello'' @ [LF] @ ''world'' @ [LF]"



section \<open>Projects and groups (types.ts)\<close>

datatype MediaType = Video | Audio | NoMedia

record Project =
  project_id :: string
  groupId :: "string option"
  project_name :: string
  project_createdAt :: int
  lastAccessedAt :: int
  mediaType :: MediaType
  mediaName :: string
  mediaUrl :: "string option"
  textUrl :: "string option"
  project_sentences :: "Sentence list"
  lastActiveIndex :: int
  project_splitRatio :: rat
  project_fontSize :: rat
  project_currentTime :: rat

record ProjectGroup =
  group_id :: string
  group_name :: string
  group_createdAt :: int

section \<open>Metadata persistence (storageService.ts)\<close>

text \<open>
  \<open>localStorage\<close> holds the two collections as JSON text under the keys
  \<open>lingoloop_data\<close> and \<open>lingoloop_groups\<close>. The model keeps the parsed value: \<open>None\<close>
  stands for an absent key (or a text that does not parse), and a field that is
  \<open>undefined\<close> is an absent option, as \<open>JSON.stringify\<close> drops it. \<open>setItem\<close> can throw
  (quota exceeded, storage disabled); \<open>writable\<close> says whether the store accepts writes.
\<close>

record localStorage =
  lingoloop_data :: "Project list option"
  lingoloop_groups :: "ProjectGroup list option"
  writable :: bool

datatype js_error = QuotaExceededError | TransactionError

definition getProjects :: "localStorage \<Rightarrow> Project list" where
  "getProjects ls = (case lingoloop_data ls of Some projects \<Rightarrow> projects | None \<Rightarrow> [])"

text \<open>\<open>saveProjects\<close> catches the exception of \<open>setItem\<close> and logs it.\<close>

definition saveProjects :: "Project list \<Rightarrow> localStorage \<Rightarrow> localStorage" where
  "saveProjects projects ls = (if writable ls then ls\<lparr>lingoloop_data := Some projects\<rparr> else ls)"

text \<open>\<open>createProject\<close>, with the fresh identifier and the clock reading as arguments.\<close>

definition createProject :: "string \<Rightarrow> int \<Rightarrow> string \<Rightarrow> string option \<Rightarrow> Project" where
  "createProject new_id now name gid =
     \<lparr>project_id = new_id, groupId = gid, project_name = name, project_createdAt = now,
      lastAccessedAt = now, mediaType = NoMedia, mediaName = [], mediaUrl = None, textUrl = None,
      project_sentences = [], lastActiveIndex = - 1, project_splitRatio = 70,
      project_fontSize = 16, project_currentTime = 0\<rparr>"

definition getGroups :: "localStorage \<Rightarrow> ProjectGroup list" where
  "getGroups ls = (case lingoloop_groups ls of Some groups \<Rightarrow> groups | None \<Rightarrow> [])"

text \<open>\<open>saveGroups\<close> has no handler: the exception of \<open>setItem\<close> reaches the caller.\<close>

definition saveGroups :: "ProjectGroup list \<Rightarrow> localStorage \<Rightarrow> js_error + localStorage" where
  "saveGroups groups ls =
     (if writable ls then Inr (ls\<lparr>lingoloop_groups := Some groups\<rparr>) else Inl QuotaExceededError)"

definition deleteGroup :: "string \<Rightarrow> localStorage \<Rightarrow> js_error + localStorage" where
  "deleteGroup gid ls =
     (case saveGroups (filter (\<lambda>g. group_id g \<noteq> gid) (getGroups ls)) ls of
        Inl e \<Rightarrow> Inl e
      | Inr ls1 \<Rightarrow>
          (let projects = getProjects ls1;
               updatedProjects =
                 map (\<lambda>p. if groupId p = Some gid then p\<lparr>groupId := None\<rparr> else p) projects
           in Inr (saveProjects updatedProjects ls1)))"

section \<open>Binary media store (mediaStorageService.ts)\<close>

text \<open>
  The object store \<open>media\<close> of IndexedDB maps a project identifier to its file. What the
  database does on a call is the environment's choice: it opens and the transaction
  completes (\<open>oncomplete\<close>); or \<open>initDB\<close> rejects (no IndexedDB, or \<open>open\<close> fails); or
  the transaction reports an error (\<open>onerror\<close>); or the transaction ends with neither
  event (an abort), and the promise built around it is never settled.
\<close>

type_synonym media_db = "string \<rightharpoonup> string"

datatype idb_outcome = Completes | OpenRejects | TransactionFails | NeverSettles

text \<open>The state in which an \<open>async\<close> function leaves its promise.\<close>

datatype promise = Fulfilled | Rejected js_error | Pending

text \<open>
  \<open>deleteMediaFromDB\<close>: the rejection of \<open>initDB\<close> is awaited inside \<open>try\<close> and caught;
  the promise of the transaction is returned without \<open>await\<close>, so its rejection goes to
  the caller.
\<close>

definition deleteMediaFromDB :: "idb_outcome \<Rightarrow> string \<Rightarrow> media_db \<Rightarrow> promise \<times> media_db" where
  "deleteMediaFromDB outcome projectId db =
     (case outcome of
        OpenRejects \<Rightarrow> (Fulfilled, db)
      | TransactionFails \<Rightarrow> (Rejected TransactionError, db)
      | NeverSettles \<Rightarrow> (Pending, db)
      | Completes \<Rightarrow> (Fulfilled, db(projectId := None)))"

text \<open>
  \<open>deleteProjectFromStorage\<close>: the metadata is written first; the deletion of the media
  is awaited inside \<open>try\<close>, and a rejection is caught and logged. While the awaited
  promise is pending, so is the function's own.
\<close>

definition deleteProjectFromStorage ::
  "idb_outcome \<Rightarrow> string \<Rightarrow> localStorage \<times> media_db \<Rightarrow> promise \<times> localStorage \<times> media_db" where
  "deleteProjectFromStorage outcome projectId st =
     (let projects = getProjects (fst st);
          newProjects = filter (\<lambda>p. project_id p \<noteq> projectId) projects;
          ls1 = saveProjects newProjects (fst st)
      in case deleteMediaFromDB outcome projectId (snd st) of
           (Rejected e, db1) \<Rightarrow> (Fulfilled, ls1, db1)
         | (Fulfilled, db1) \<Rightarrow> (Fulfilled, ls1, db1)
         | (Pending, db1) \<Rightarrow> (Pending, ls1, db1))"

text \<open>An example store: two groups, three projects, the media of one project.\<close>

definition example_storage :: localStorage where
  "example_storage =
     \<lparr>lingoloop_data = Some [createProject ''p1'' 10 ''News'' (Some ''g1''),
                             createProject ''p2'' 20 ''Songs'' (Some ''g2''),
                             createProject ''p3'' 30 ''Notes'' None],
      lingoloop_groups = Some [\<lparr>group_id = ''g1'', group_name = ''A'', group_createdAt = 1\<rparr>,
                               \<lparr>group_id = ''g2'', group_name = ''B'', group_createdAt = 2\<rparr>],
      writable = True\<rparr>"

definition example_media :: media_db where
  "example_media = [''p1'' \<mapsto> ''bytes of the media file'']"

section \<open>Loop playback engine (MediaPlayer.tsx, PlayerPage.tsx)\<close>

record PlaybackSettings =
  loopCountOption :: int
  loopDelay :: rat
  playbackRate :: rat
  autoPlayNext :: bool

text \<open>
  A pending \<open>setTimeout\<close>: its delay in milliseconds and the sentence that the callback's
  closure holds, the current sentence of the render that scheduled it.
\<close>

record timer =
  timer_delay :: rat
  timer_sentence :: Sentence

text \<open>
  The state of the player page: the React state of \<open>PlayerPage\<close> (\<open>sentences\<close>,
  \<open>currentSentenceId\<close>, \<open>settings\<close>, \<open>isPlaying\<close>, \<open>currentTime\<close>), the React state of
  \<open>MediaPlayer\<close> (\<open>currentLoop\<close>, \<open>isDelaying\<close>, \<open>isPlaying\<close>, \<open>internalTime\<close>), the media
  element (\<open>paused\<close>, \<open>currentTime\<close>) and the timers that have not fired. A handler runs
  to its end on one state, and the state updates it queues are applied together.
\<close>

record player =
  sentences :: "Sentence list"
  currentSentenceId :: "string option"
  settings :: PlaybackSettings
  page_isPlaying :: bool
  page_currentTime :: rat
  currentLoop :: int
  isDelaying :: bool
  isPlaying :: bool
  internalTime :: rat
  media_paused :: bool
  media_currentTime :: rat
  timers :: "timer list"

text \<open>\<open>sentences.find(s => s.id === currentSentenceId) || null\<close>\<close>

definition activeSentence :: "player \<Rightarrow> Sentence option" where
  "activeSentence s =
     (case currentSentenceId s of
        None \<Rightarrow> None
      | Some i \<Rightarrow> find (\<lambda>x. sentence_id x = i) (sentences s))"

text \<open>\<open>Array.prototype.findIndex\<close>: the first position that satisfies the test, or -1.\<close>

definition findIndex :: "('a \<Rightarrow> bool) \<Rightarrow> 'a list \<Rightarrow> int" where
  "findIndex P xs = (if list_ex P xs then int (length (takeWhile (\<lambda>x. \<not> P x) xs)) else - 1)"

text \<open>
  \<open>media.pause()\<close> and \<open>media.play()\<close>, with the \<open>pause\<close> and \<open>play\<close> listeners of
  \<open>MediaPlayer\<close>, which copy the change into \<open>isPlaying\<close>. \<open>play\<close> is taken to succeed.
\<close>

definition media_pause :: "player \<Rightarrow> player" where
  "media_pause s = (if media_paused s then s else s\<lparr>media_paused := True, isPlaying := False\<rparr>)"

definition media_play :: "player \<Rightarrow> player" where
  "media_play s = (if media_paused s then s\<lparr>media_paused := False, isPlaying := True\<rparr> else s)"

definition handleSentenceClick :: "Sentence \<Rightarrow> player \<Rightarrow> player" where
  "handleSentenceClick x s =
     (media_play (s\<lparr>currentSentenceId := Some (sentence_id x), media_currentTime := startTime x\<rparr>))
       \<lparr>page_isPlaying := True\<rparr>"

definition handlePrev :: "player \<Rightarrow> player" where
  "handlePrev s =
     (let idx = findIndex (\<lambda>x. Some (sentence_id x) = currentSentenceId s) (sentences s)
      in if idx > 0 then handleSentenceClick (sentences s ! nat (idx - 1)) s else s)"

definition handleNext :: "player \<Rightarrow> player" where
  "handleNext s =
     (let idx = findIndex (\<lambda>x. Some (sentence_id x) = currentSentenceId s) (sentences s)
      in if idx < int (length (sentences s)) - 1
         then handleSentenceClick (sentences s ! nat (idx + 1)) s else s)"

text \<open>\<open>settings.loopCountOption === -1 ? Infinity : settings.loopCountOption\<close>\<close>

datatype loops = Finite int | Infinity

definition maxLoops :: "PlaybackSettings \<Rightarrow> loops" where
  "maxLoops st = (if loopCountOption st = - 1 then Infinity else Finite (loopCountOption st))"

text \<open>\<open>currentLoop < maxLoops - 1\<close>\<close>

fun below_last_loop :: "int \<Rightarrow> loops \<Rightarrow> bool" where
  "below_last_loop n Infinity = True"
| "below_last_loop n (Finite m) = (n < m - 1)"

text \<open>
  \<open>typeof hasNext !== 'undefined' ? hasNext : true\<close>. No binding named \<open>hasNext\<close> is in
  scope in \<open>MediaPlayer.tsx\<close> (it is no prop, no import and no local), so \<open>typeof\<close> gives
  \<open>'undefined'\<close>.
\<close>

definition hasNext :: "bool option" where
  "hasNext = None"

definition hasNextSentence :: bool where
  "hasNextSentence = (case hasNext of Some b \<Rightarrow> b | None \<Rightarrow> True)"

text \<open>The listener of \<open>timeupdate\<close>; \<open>onAutoPlayNext\<close> is \<open>handleNext\<close> of the page.\<close>

definition handleTimeUpdate :: "player \<Rightarrow> player" where
  "handleTimeUpdate s =
     (let currentTime = media_currentTime s
      in case activeSentence s of
           None \<Rightarrow> media_pause s
         | Some currentSentence \<Rightarrow>
             (let s1 = s\<lparr>internalTime := currentTime, page_currentTime := currentTime\<rparr>
              in if \<not> isDelaying s1 \<and> currentTime \<ge> endTime currentSentence
                 then
                   if below_last_loop (currentLoop s1) (maxLoops (settings s1))
                   then (media_pause s1)
                          \<lparr>isDelaying := True,
                           timers := timers s1 @
                             [\<lparr>timer_delay = loopDelay (settings s1) * 1000,
                               timer_sentence = currentSentence\<rparr>]\<rparr>
                   else if autoPlayNext (settings s1) \<and> hasNextSentence
                   then (handleNext s1)\<lparr>currentLoop := 0\<rparr>
                   else (media_pause s1)
                          \<lparr>media_currentTime := startTime currentSentence,
                           currentLoop := 0, isPlaying := False\<rparr>
                 else s1))"

text \<open>The callback of the timer at position \<open>k\<close> among the pending ones.\<close>

definition timer_fires :: "nat \<Rightarrow> player \<Rightarrow> player" where
  "timer_fires k s =
     (if k < length (timers s)
      then (media_play
              (s\<lparr>timers := take k (timers s) @ drop (Suc k) (timers s),
                 media_currentTime := startTime (timer_sentence (timers s ! k))\<rparr>))
             \<lparr>currentLoop := currentLoop s + 1, isDelaying := False\<rparr>
      else s)"

text \<open>
  The effect \<open>Reset loop count when sentence changes\<close>, which React runs after a render in
  which the prop \<open>currentSentence\<close> has changed.
\<close>

definition sentence_changed :: "player \<Rightarrow> player" where
  "sentence_changed s =
     (let s1 = s\<lparr>currentLoop := 0, isDelaying := False\<rparr>
      in case activeSentence s1 of
           None \<Rightarrow> s1
         | Some currentSentence \<Rightarrow>
             if autoPlayNext (settings s1) \<and> \<not> media_paused s1 \<and>
                (media_currentTime s1 < startTime currentSentence \<or>
                 media_currentTime s1 > endTime currentSentence)
             then s1\<lparr>media_currentTime := startTime currentSentence\<rparr>
             else s1)"

text \<open>
  The commit of a handler's updates: \<open>rendered\<close> is the state of the last render, \<open>s\<close>
  the state the handler leaves.
\<close>

definition commit :: "player \<Rightarrow> player \<Rightarrow> player" where
  "commit rendered s =
     (if activeSentence s \<noteq> activeSentence rendered then sentence_changed s else s)"

text \<open>
  What can happen to the player: the media element reports a position, a pending timer
  fires, the user picks a sentence (click, sidebar, previous, next) or changes the
  settings.
\<close>

datatype event =
    TimeUpdate rat
  | TimerFires nat
  | SentenceClick Sentence
  | Prev
  | Next
  | SetSettings PlaybackSettings

fun handle :: "event \<Rightarrow> player \<Rightarrow> player" where
  "handle (TimeUpdate t) s = handleTimeUpdate (s\<lparr>media_currentTime := t\<rparr>)"
| "handle (TimerFires k) s = timer_fires k s"
| "handle (SentenceClick x) s = handleSentenceClick x s"
| "handle Prev s = handlePrev s"
| "handle Next s = handleNext s"
| "handle (SetSettings st) s = s\<lparr>settings := st\<rparr>"

definition step :: "event \<Rightarrow> player \<Rightarrow> player" where
  "step e s = commit s (handle e s)"

definition run :: "event list \<Rightarrow> player \<Rightarrow> player" where
  "run es s = foldl (\<lambda>s e. step e s) s es"

text \<open>Example states: a sentence from 1 to 2 seconds, alone or followed by another.\<close>

definition sentence_a :: Sentence where
  "sentence_a = \<lparr>sentence_id = ''a'', sentence_text = ''first'', startTime = 1, endTime = 2, loopCount = 1\<rparr>"

definition sentence_b :: Sentence where
  "sentence_b = \<lparr>sentence_id = ''b'', sentence_text = ''second'', startTime = 5, endTime = 7, loopCount = 1\<rparr>"

definition playing :: "Sentence list \<Rightarrow> int \<Rightarrow> bool \<Rightarrow> player" where
  "playing ss n auto =
     \<lparr>sentences = ss, currentSentenceId = Some ''a'',
      settings = \<lparr>loopCountOption = n, loopDelay = 1 / 5, playbackRate = 1, autoPlayNext = auto\<rparr>,
      page_isPlaying = True, page_currentTime = 1, currentLoop = 0, isDelaying = False,
      isPlaying = True, internalTime = 1, media_paused = False, media_currentTime = 1,
      timers = []\<rparr>"

section \<open>Properties of the time codec\<close>











lemma two_digits_shape: "length (two_digits n) = 2 \<and> (\<forall>c \<in> set (two_digits n). is_digit c)"
proof -
  have "m < 10 \<Longrightarrow> is_digit (''0123456789'' ! m)" for m :: nat
    unfolding is_digit_def by (rule nth_mem) simp
  then show ?thesis by (simp add: two_digits_def digit_char_def)
qed

section \<open>Properties of the imports\<close>

lemma txt_run_snoc: "txt_run ids (ls @ [l]) = txt_line ids (txt_run ids ls) l"
  by (simp add: txt_run_def)

lemma txt_line_fst:
  "\<exists>x. fst (txt_line ids st l) = fst st @ [x] \<and> loopCount x = 1 \<and> endTime x = snd (txt_line ids st l)"
  by (simp add: txt_line_def Let_def split: option.split prod.split)


lemma txt_run_loopCount: "\<forall>s \<in> set (fst (txt_run ids ls)). loopCount s = 1"
proof (induction ls rule: rev_induct)
  case Nil
  show ?case by (simp add: txt_run_def)
next
  case (snoc l ls)
  obtain x where "fst (txt_line ids (txt_run ids ls) l) = fst (txt_run ids ls) @ [x]" "loopCount x = 1"
    using txt_line_fst by blast
  then show ?case using snoc by (simp add: txt_run_snoc)
qed
























text \<open>
  Claim C10. Every segment made by an import (subtitle file, plain text with or without
  bracketed ranges, transcript of the AI service) has \<open>loopCount = 1\<close>.
\<close>

theorem import_loopCount:
  "(\<forall>s \<in> set (processContent ids content isSrt). loopCount s = 1)
   \<and> (\<forall>s \<in> set (transcribed_sentences ids srtText). loopCount s = 1)"
proof -
  have "\<forall>s \<in> set (srt_sentences ids content). loopCount s = 1"
    by (auto simp: srt_sentences_def)
  moreover have "\<forall>s \<in> set (parseTxtContent ids content). loopCount s = 1"
    unfolding parseTxtContent_def by (rule txt_run_loopCount)
  moreover have "\<forall>s \<in> set (transcribed_sentences ids srtText). loopCount s = 1"
    by (auto simp: transcribed_sentences_def)
  ultimately show ?thesis by (simp add: processContent_def)
qed

theorem import_loopCount_witness:
  "length (processContent counter_ids example_txt False) = 2
   \<and> loopCount (processContent counter_ids example_txt False ! 0) = 1
   \<and> loopCount (processContent counter_ids example_txt False ! 1) = 1
   \<and> length (processContent counter_ids example_srt True) = 1
   \<and> loopCount (processContent counter_ids example_srt True ! 0) = 1
   \<and> length (transcribed_sentences counter_ids example_srt) = 1
   \<and> loopCount (transcribed_sentences counter_ids example_srt ! 0) = 1"
proof -
  have a: "length (processContent counter_ids example_txt False) = 2" by code_simp
  have b: "length (processContent counter_ids example_srt True) = 1" by code_simp
  have c: "length (transcribed_sentences counter_ids example_srt) = 1" by code_simp
  have "processContent counter_ids example_txt False ! 0 \<in> set (processContent counter_ids example_txt False)"
       "processContent counter_ids example_txt False ! 1 \<in> set (processContent counter_ids example_txt False)"
       "processContent counter_ids example_srt True ! 0 \<in> set (processContent counter_ids example_srt True)"
       "transcribed_sentences counter_ids example_srt ! 0 \<in> set (transcribed_sentences counter_ids example_srt)"
    using a b c by simp_all
  then show ?thesis
    using import_loopCount[of counter_ids example_txt False example_srt]
          import_loopCount[of counter_ids example_srt True example_srt] a b c
    by blast
qed

section \<open>Properties of the persistence\<close>

lemma deleteGroup_writable:
  assumes "writable ls"
  shows "deleteGroup gid ls =
           Inr (ls\<lparr>lingoloop_groups := Some (filter (\<lambda>g. group_id g \<noteq> gid) (getGroups ls)),
                    lingoloop_data := Some (map (\<lambda>p. if groupId p = Some gid then p\<lparr>groupId := None\<rparr> else p)
                                                (getProjects ls))\<rparr>)"
  using assms by (simp add: deleteGroup_def saveGroups_def saveProjects_def getProjects_def Let_def)

text \<open>
  Claim C7. Deleting a group removes the group's record and no project: a project of the
  deleted group stays in the collection with its \<open>groupId\<close> cleared, and every other
  project is unchanged. (The store is taken to accept the writes.)
\<close>

theorem deleteGroup_moves_projects_to_root:
  assumes "writable ls"
  shows "\<exists>ls'. deleteGroup gid ls = Inr ls'
           \<and> getGroups ls' = filter (\<lambda>g. group_id g \<noteq> gid) (getGroups ls)
           \<and> length (getProjects ls') = length (getProjects ls)
           \<and> (\<forall>i < length (getProjects ls).
                 (groupId (getProjects ls ! i) = Some gid \<longrightarrow>
                    getProjects ls' ! i = (getProjects ls ! i)\<lparr>groupId := None\<rparr>)
               \<and> (groupId (getProjects ls ! i) \<noteq> Some gid \<longrightarrow>
                    getProjects ls' ! i = getProjects ls ! i))"
proof -
  let ?ls' = "ls\<lparr>lingoloop_groups := Some (filter (\<lambda>g. group_id g \<noteq> gid) (getGroups ls)),
                    lingoloop_data := Some (map (\<lambda>p. if groupId p = Some gid then p\<lparr>groupId := None\<rparr> else p)
                                                (getProjects ls))\<rparr>"
  have "deleteGroup gid ls = Inr ?ls'" using assms by (rule deleteGroup_writable)
  moreover have "getGroups ?ls' = filter (\<lambda>g. group_id g \<noteq> gid) (getGroups ls)"
    by (simp add: getGroups_def)
  moreover have p: "getProjects ?ls' = map (\<lambda>p. if groupId p = Some gid then p\<lparr>groupId := None\<rparr> else p)
                                                (getProjects ls)"
    by (simp add: getProjects_def)
  moreover have "length (getProjects ?ls') = length (getProjects ls)"
    unfolding p by simp
  moreover have "\<forall>i < length (getProjects ls).
                 (groupId (getProjects ls ! i) = Some gid \<longrightarrow>
                    getProjects ?ls' ! i = (getProjects ls ! i)\<lparr>groupId := None\<rparr>)
               \<and> (groupId (getProjects ls ! i) \<noteq> Some gid \<longrightarrow>
                    getProjects ?ls' ! i = getProjects ls ! i)"
    unfolding p by simp
  ultimately show ?thesis by blast
qed

theorem deleteGroup_moves_projects_to_root_witness:
  "writable example_storage
   \<and> deleteGroup ''g1'' example_storage =
       Inr \<lparr>lingoloop_data = Some [createProject ''p1'' 10 ''News'' None,
                                   createProject ''p2'' 20 ''Songs'' (Some ''g2''),
                                   createProject ''p3'' 30 ''Notes'' None],
            lingoloop_groups = Some [\<lparr>group_id = ''g2'', group_name = ''B'', group_createdAt = 2\<rparr>],
            writable = True\<rparr>"
proof -
  have w: "writable example_storage" by (simp add: example_storage_def)
  obtain ls' where d: "deleteGroup ''g1'' example_storage = Inr ls'"
    and g: "getGroups ls' = filter (\<lambda>g. group_id g \<noteq> ''g1'') (getGroups example_storage)"
    using deleteGroup_moves_projects_to_root[OF w, of "''g1''"] by blast
  have "deleteGroup ''g1'' example_storage =
       Inr \<lparr>lingoloop_data = Some [createProject ''p1'' 10 ''News'' None,
                                   createProject ''p2'' 20 ''Songs'' (Some ''g2''),
                                   createProject ''p3'' 30 ''Notes'' None],
            lingoloop_groups = Some [\<lparr>group_id = ''g2'', group_name = ''B'', group_createdAt = 2\<rparr>],
            writable = True\<rparr>"
    by (simp add: deleteGroup_def saveGroups_def saveProjects_def getProjects_def getGroups_def
        example_storage_def createProject_def Let_def)
  then show ?thesis using w d by simp
qed

text \<open>
  Claim C8. Deleting a project removes its record from the metadata collection whatever
  becomes of the deletion of its media: the metadata is written before the media is
  touched, a failure of the media deletion is caught and never reaches the caller, and
  the media store is then as it was. The call ends normally whenever the database answers
  at all. (The metadata store is taken to accept the write.)
\<close>

theorem deleteProject_despite_media_failure:
  assumes "writable ls"
  shows "\<exists>p ls' db'. deleteProjectFromStorage outcome pid (ls, db) = (p, ls', db')
           \<and> getProjects ls' = filter (\<lambda>x. project_id x \<noteq> pid) (getProjects ls)
           \<and> pid \<notin> project_id ` set (getProjects ls')
           \<and> (\<forall>e. p \<noteq> Rejected e)
           \<and> (outcome \<noteq> NeverSettles \<longrightarrow> p = Fulfilled)
           \<and> (outcome \<noteq> Completes \<longrightarrow> db' = db)
           \<and> (outcome = Completes \<longrightarrow> db' = db(pid := None))"
  using assms
  by (cases outcome)
     (auto simp: deleteProjectFromStorage_def deleteMediaFromDB_def saveProjects_def getProjects_def Let_def)

theorem deleteProject_despite_media_failure_witness:
  "writable example_storage
   \<and> (\<exists>ls'. deleteProjectFromStorage TransactionFails ''p1'' (example_storage, example_media)
               = (Fulfilled, ls', example_media)
             \<and> getProjects ls' = [createProject ''p2'' 20 ''Songs'' (Some ''g2''),
                                   createProject ''p3'' 30 ''Notes'' None])"
proof -
  have w: "writable example_storage" by (simp add: example_storage_def)
  have f: "filter (\<lambda>p. project_id p \<noteq> ''p1'') (getProjects example_storage)
             = [createProject ''p2'' 20 ''Songs'' (Some ''g2''), createProject ''p3'' 30 ''Notes'' None]"
    by (simp add: getProjects_def example_storage_def createProject_def)
  show ?thesis
    using deleteProject_despite_media_failure[OF w, of TransactionFails "''p1''" example_media] w f
    by auto
qed

section \<open>Properties of the loop playback engine\<close>

lemma activeSentence_cong:
  "currentSentenceId s' = currentSentenceId s \<Longrightarrow> sentences s' = sentences s \<Longrightarrow>
   activeSentence s' = activeSentence s"
  by (cases "currentSentenceId s") (simp_all add: activeSentence_def)

lemma step_same_sentence:
  "activeSentence (handle e s) = activeSentence s \<Longrightarrow> step e s = handle e s"
  by (simp only: step_def commit_def simp_thms if_False)

lemma below_last_loop_iff:
  "below_last_loop n (maxLoops st) = (loopCountOption st = - 1 \<or> n < loopCountOption st - 1)"
  by (simp add: maxLoops_def)

lemma timeupdate_schedules_timer:
  assumes "activeSentence s = Some cur" "\<not> isDelaying s" "endTime cur \<le> t"
    and "loopCountOption (settings s) = - 1 \<or> currentLoop s < loopCountOption (settings s) - 1"
  shows "step (TimeUpdate t) s =
           (media_pause (s\<lparr>media_currentTime := t, internalTime := t, page_currentTime := t\<rparr>))
              \<lparr>isDelaying := True,
               timers := timers s @ [\<lparr>timer_delay = loopDelay (settings s) * 1000, timer_sentence = cur\<rparr>]\<rparr>"
proof -
  have "activeSentence (s\<lparr>media_currentTime := t\<rparr>) = activeSentence s"
    by (rule activeSentence_cong) simp_all
  then have a: "activeSentence (s\<lparr>media_currentTime := t\<rparr>) = Some cur"
    using assms(1) by simp
  have h: "handle (TimeUpdate t) s =
           (media_pause (s\<lparr>media_currentTime := t, internalTime := t, page_currentTime := t\<rparr>))
              \<lparr>isDelaying := True,
               timers := timers s @ [\<lparr>timer_delay = loopDelay (settings s) * 1000, timer_sentence = cur\<rparr>]\<rparr>"
    using assms(2,3,4) by (simp add: handleTimeUpdate_def a Let_def below_last_loop_iff)
  have "activeSentence (handle (TimeUpdate t) s) = activeSentence s"
    unfolding h by (rule activeSentence_cong) (simp_all add: media_pause_def)
  then have "step (TimeUpdate t) s = handle (TimeUpdate t) s"
    by (rule step_same_sentence)
  then show ?thesis by (simp only: h)
qed

lemma timer_fires_step:
  assumes "k < length (timers s)"
  shows "step (TimerFires k) s =
           (media_play (s\<lparr>timers := take k (timers s) @ drop (Suc k) (timers s),
                          media_currentTime := startTime (timer_sentence (timers s ! k))\<rparr>))
             \<lparr>currentLoop := currentLoop s + 1, isDelaying := False\<rparr>"
proof -
  have h: "handle (TimerFires k) s =
           (media_play (s\<lparr>timers := take k (timers s) @ drop (Suc k) (timers s),
                          media_currentTime := startTime (timer_sentence (timers s ! k))\<rparr>))
             \<lparr>currentLoop := currentLoop s + 1, isDelaying := False\<rparr>"
    using assms by (simp add: timer_fires_def)
  have "activeSentence (handle (TimerFires k) s) = activeSentence s"
    unfolding h by (rule activeSentence_cong) (simp_all add: media_play_def)
  then have "step (TimerFires k) s = handle (TimerFires k) s"
    by (rule step_same_sentence)
  then show ?thesis by (simp only: h)
qed

lemma run_two: "run [e1, e2] s = step e2 (step e1 s)"
  by (simp add: run_def)

text \<open>
  Claim C2. When a position update reaches the end of the active sentence while the
  engine is not waiting and the loops done are fewer than the loop count minus one (or
  the loop count is -1, unbounded), the engine pauses the media, starts waiting and
  schedules a timer of \<open>loopDelay\<close> seconds for that sentence. When the timer fires, the
  media is set to the sentence's start and plays, the loops done go up by one and the
  waiting ends. With a loop count of 3 and a sentence from 1 to 2 seconds, three
  crossings of 2 give two such cycles; the loops done reach 2, and the third crossing
  takes the final branch, which schedules no timer.
\<close>

theorem loop_branch:
  assumes "activeSentence s = Some cur" and "\<not> isDelaying s" and "endTime cur \<le> t"
    and "loopCountOption (settings s) = - 1 \<or> currentLoop s < loopCountOption (settings s) - 1"
  shows "media_paused (step (TimeUpdate t) s)
       \<and> isDelaying (step (TimeUpdate t) s)
       \<and> currentLoop (step (TimeUpdate t) s) = currentLoop s
       \<and> timers (step (TimeUpdate t) s)
           = timers s @ [\<lparr>timer_delay = loopDelay (settings s) * 1000, timer_sentence = cur\<rparr>]
       \<and> media_currentTime (run [TimeUpdate t, TimerFires (length (timers s))] s) = startTime cur
       \<and> \<not> media_paused (run [TimeUpdate t, TimerFires (length (timers s))] s)
       \<and> currentLoop (run [TimeUpdate t, TimerFires (length (timers s))] s) = currentLoop s + 1
       \<and> \<not> isDelaying (run [TimeUpdate t, TimerFires (length (timers s))] s)
       \<and> timers (run [TimeUpdate t, TimerFires (length (timers s))] s) = timers s
       \<and> (let s1 = run [TimeUpdate 2] (playing [sentence_a] 3 False);
              s2 = run [TimeUpdate 2, TimerFires 0] (playing [sentence_a] 3 False);
              s3 = run [TimeUpdate 2, TimerFires 0, TimeUpdate 2] (playing [sentence_a] 3 False);
              s4 = run [TimeUpdate 2, TimerFires 0, TimeUpdate 2, TimerFires 0] (playing [sentence_a] 3 False);
              s5 = run [TimeUpdate 2, TimerFires 0, TimeUpdate 2, TimerFires 0, TimeUpdate 2]
                     (playing [sentence_a] 3 False)
          in media_paused s1 \<and> isDelaying s1 \<and> length (timers s1) = 1 \<and> currentLoop s1 = 0
           \<and> \<not> media_paused s2 \<and> \<not> isDelaying s2 \<and> media_currentTime s2 = 1 \<and> currentLoop s2 = 1
           \<and> media_paused s3 \<and> isDelaying s3 \<and> length (timers s3) = 1 \<and> currentLoop s3 = 1
           \<and> \<not> media_paused s4 \<and> \<not> isDelaying s4 \<and> media_currentTime s4 = 1 \<and> currentLoop s4 = 2
           \<and> media_paused s5 \<and> \<not> isDelaying s5 \<and> timers s5 = [] \<and> media_currentTime s5 = 1
           \<and> currentLoop s5 = 0)"
proof -
  let ?s1 = "step (TimeUpdate t) s"
  let ?tm = "\<lparr>timer_delay = loopDelay (settings s) * 1000, timer_sentence = cur\<rparr>"
  have s1: "?s1 = (media_pause (s\<lparr>media_currentTime := t, internalTime := t, page_currentTime := t\<rparr>))
              \<lparr>isDelaying := True, timers := timers s @ [?tm]\<rparr>"
    using assms by (rule timeupdate_schedules_timer)
  have p1: "media_paused ?s1" "isDelaying ?s1" "currentLoop ?s1 = currentLoop s"
    "timers ?s1 = timers s @ [?tm]"
    unfolding s1 by (simp_all add: media_pause_def)
  have k: "length (timers s) < length (timers ?s1)" by (simp add: p1)
  have nth: "timers ?s1 ! length (timers s) = ?tm" by (simp add: p1)
  have s2: "run [TimeUpdate t, TimerFires (length (timers s))] s =
           (media_play (?s1\<lparr>timers := take (length (timers s)) (timers ?s1)
                                      @ drop (Suc (length (timers s))) (timers ?s1),
                          media_currentTime := startTime (timer_sentence ?tm)\<rparr>))
             \<lparr>currentLoop := currentLoop ?s1 + 1, isDelaying := False\<rparr>"
    unfolding run_two using timer_fires_step[OF k] by (simp only: nth)
  have p2: "media_currentTime (run [TimeUpdate t, TimerFires (length (timers s))] s) = startTime cur"
    "\<not> media_paused (run [TimeUpdate t, TimerFires (length (timers s))] s)"
    "currentLoop (run [TimeUpdate t, TimerFires (length (timers s))] s) = currentLoop s + 1"
    "\<not> isDelaying (run [TimeUpdate t, TimerFires (length (timers s))] s)"
    "timers (run [TimeUpdate t, TimerFires (length (timers s))] s) = timers s"
    unfolding s2 by (simp_all add: media_play_def p1)
  have sc: "(let s1 = run [TimeUpdate 2] (playing [sentence_a] 3 False);
              s2 = run [TimeUpdate 2, TimerFires 0] (playing [sentence_a] 3 False);
              s3 = run [TimeUpdate 2, TimerFires 0, TimeUpdate 2] (playing [sentence_a] 3 False);
              s4 = run [TimeUpdate 2, TimerFires 0, TimeUpdate 2, TimerFires 0] (playing [sentence_a] 3 False);
              s5 = run [TimeUpdate 2, TimerFires 0, TimeUpdate 2, TimerFires 0, TimeUpdate 2]
                     (playing [sentence_a] 3 False)
          in media_paused s1 \<and> isDelaying s1 \<and> length (timers s1) = 1 \<and> currentLoop s1 = 0
           \<and> \<not> media_paused s2 \<and> \<not> isDelaying s2 \<and> media_currentTime s2 = 1 \<and> currentLoop s2 = 1
           \<and> media_paused s3 \<and> isDelaying s3 \<and> length (timers s3) = 1 \<and> currentLoop s3 = 1
           \<and> \<not> media_paused s4 \<and> \<not> isDelaying s4 \<and> media_currentTime s4 = 1 \<and> currentLoop s4 = 2
           \<and> media_paused s5 \<and> \<not> isDelaying s5 \<and> timers s5 = [] \<and> media_currentTime s5 = 1
           \<and> currentLoop s5 = 0)"
    by code_simp
  from p1 p2 sc show ?thesis by blast
qed


theorem loop_branch_witness:
  "activeSentence ((playing [sentence_a] (- 1) True)\<lparr>currentLoop := 7\<rparr>) = Some sentence_a
   \<and> \<not> isDelaying ((playing [sentence_a] (- 1) True)\<lparr>currentLoop := 7\<rparr>)
   \<and> endTime sentence_a \<le> 9 / 4
   \<and> media_paused (step (TimeUpdate (9 / 4)) ((playing [sentence_a] (- 1) True)\<lparr>currentLoop := 7\<rparr>))
   \<and> timers (step (TimeUpdate (9 / 4)) ((playing [sentence_a] (- 1) True)\<lparr>currentLoop := 7\<rparr>))
        = [\<lparr>timer_delay = 200, timer_sentence = sentence_a\<rparr>]
   \<and> media_currentTime (run [TimeUpdate (9 / 4), TimerFires 0]
         ((playing [sentence_a] (- 1) True)\<lparr>currentLoop := 7\<rparr>)) = 1
   \<and> currentLoop (run [TimeUpdate (9 / 4), TimerFires 0]
         ((playing [sentence_a] (- 1) True)\<lparr>currentLoop := 7\<rparr>)) = 8"
proof -
  let ?s = "(playing [sentence_a] (- 1) True)\<lparr>currentLoop := 7\<rparr>"
  have a: "activeSentence ?s = Some sentence_a"
    by (simp add: activeSentence_def playing_def sentence_a_def)
  have d: "\<not> isDelaying ?s" by (simp add: playing_def)
  have t: "endTime sentence_a \<le> 9 / 4" by (simp add: sentence_a_def)
  have b: "loopCountOption (settings ?s) = - 1 \<or> currentLoop ?s < loopCountOption (settings ?s) - 1"
    by (simp add: playing_def)
  have v: "timers ?s = []" "loopDelay (settings ?s) * 1000 = 200" "currentLoop ?s = 7"
    "startTime sentence_a = 1"
    by (simp_all add: playing_def sentence_a_def)
  show ?thesis
    using loop_branch[OF a d t b] a d t unfolding v by simp
qed

lemma findIndex_split:
  assumes "\<forall>x \<in> set before. \<not> P x" "P c"
  shows "findIndex P (before @ c # rest) = int (length before)"
proof -
  have "takeWhile (\<lambda>x. \<not> P x) (before @ c # rest) = before"
    using assms by (simp add: takeWhile_append2)
  moreover have "list_ex P (before @ c # rest)"
    using assms(2) by (simp add: list_ex_iff)
  ultimately show ?thesis by (simp add: findIndex_def)
qed

lemma find_split:
  assumes "\<forall>x \<in> set before. \<not> P x" "P c"
  shows "find P (before @ c # rest) = Some c"
  using assms by (induction before) simp_all

lemma handleNext_split:
  assumes "sentences s = before @ cur # nxt # rest"
    and "\<forall>x \<in> set before. sentence_id x \<noteq> sentence_id cur"
    and "currentSentenceId s = Some (sentence_id cur)"
  shows "handleNext s = handleSentenceClick nxt s"
proof -
  have "findIndex (\<lambda>x. Some (sentence_id x) = currentSentenceId s) (before @ cur # nxt # rest)
          = int (length before)"
    using assms(2,3) by (intro findIndex_split) simp_all
  then have i: "findIndex (\<lambda>x. Some (sentence_id x) = currentSentenceId s) (sentences s)
          = int (length before)"
    by (simp only: assms(1))
  have n: "sentences s ! nat (int (length before) + 1) = nxt"
    by (simp add: assms(1) nat_add_distrib nth_append)
  have l: "int (length before) < int (length (sentences s)) - 1"
    by (simp add: assms(1))
  show ?thesis unfolding handleNext_def i Let_def using n l by simp
qed

text \<open>
  Claim C3. When a position update reaches the end of the active sentence, the loop
  budget is used up, \<open>autoPlayNext\<close> is on and a sentence follows the active one, the
  engine selects the following sentence, sets the loops done to 0 and leaves the media
  playing at the start of the new sentence. (The sentence found under the new identifier
  is the following one when the identifiers are distinct.)
\<close>

theorem auto_advance:
  assumes "sentences s = before @ cur # nxt # rest"
    and "\<forall>x \<in> set before. sentence_id x \<noteq> sentence_id cur"
    and "currentSentenceId s = Some (sentence_id cur)"
    and "\<not> isDelaying s" and "endTime cur \<le> t"
    and "loopCountOption (settings s) \<noteq> - 1"
    and "loopCountOption (settings s) - 1 \<le> currentLoop s"
    and "autoPlayNext (settings s)"
  shows "currentSentenceId (step (TimeUpdate t) s) = Some (sentence_id nxt)
       \<and> currentLoop (step (TimeUpdate t) s) = 0
       \<and> \<not> media_paused (step (TimeUpdate t) s)
       \<and> \<not> isDelaying (step (TimeUpdate t) s)
       \<and> timers (step (TimeUpdate t) s) = timers s
       \<and> (distinct (map sentence_id (sentences s)) \<longrightarrow>
            activeSentence (step (TimeUpdate t) s) = Some nxt
          \<and> media_currentTime (step (TimeUpdate t) s) = startTime nxt)"
proof -
  let ?s0 = "s\<lparr>media_currentTime := t\<rparr>"
  let ?s1 = "?s0\<lparr>internalTime := t, page_currentTime := t\<rparr>"
  let ?h = "(handleSentenceClick nxt ?s1)\<lparr>currentLoop := 0\<rparr>"
  have act: "activeSentence s = Some cur"
    unfolding activeSentence_def assms(1) assms(3) using assms(2)
    by (simp add: find_split)
  have "activeSentence ?s0 = activeSentence s"
    by (rule activeSentence_cong) simp_all
  then have a0: "activeSentence ?s0 = Some cur" using act by simp
  have nx: "handleNext ?s1 = handleSentenceClick nxt ?s1"
    using assms(1,2,3) by (intro handleNext_split[where before = before and cur = cur and rest = rest]) simp_all
  have h: "handle (TimeUpdate t) s = ?h"
    using assms(4,5,6,7,8)
    by (simp add: handleTimeUpdate_def a0 Let_def below_last_loop_iff hasNextSentence_def hasNext_def nx)
  have hf: "currentSentenceId ?h = Some (sentence_id nxt)" "currentLoop ?h = 0"
    "\<not> media_paused ?h" "isDelaying ?h = isDelaying s" "timers ?h = timers s"
    "media_currentTime ?h = startTime nxt" "sentences ?h = sentences s"
    by (simp_all add: handleSentenceClick_def media_play_def)
  have sc: "currentSentenceId (sentence_changed ?h) = Some (sentence_id nxt)"
    "currentLoop (sentence_changed ?h) = 0"
    "\<not> media_paused (sentence_changed ?h)" "\<not> isDelaying (sentence_changed ?h)"
    "timers (sentence_changed ?h) = timers s" "sentences (sentence_changed ?h) = sentences s"
    using hf by (simp_all add: sentence_changed_def Let_def split: option.split)
  have st: "step (TimeUpdate t) s = ?h \<or> step (TimeUpdate t) s = sentence_changed ?h"
    by (simp only: step_def commit_def h split: if_split) simp
  have basic: "currentSentenceId (step (TimeUpdate t) s) = Some (sentence_id nxt)"
    "currentLoop (step (TimeUpdate t) s) = 0"
    "\<not> media_paused (step (TimeUpdate t) s)"
    "\<not> isDelaying (step (TimeUpdate t) s)"
    "timers (step (TimeUpdate t) s) = timers s"
    "sentences (step (TimeUpdate t) s) = sentences s"
    using st hf sc assms(4) by auto
  have uniq: "activeSentence (step (TimeUpdate t) s) = Some nxt
          \<and> media_currentTime (step (TimeUpdate t) s) = startTime nxt"
    if dist: "distinct (map sentence_id (sentences s))"
  proof -
    have "\<forall>x \<in> set (before @ [cur]). sentence_id x \<noteq> sentence_id nxt"
      using dist unfolding assms(1) by (auto simp: image_iff)
    then have "find (\<lambda>x. sentence_id x = sentence_id nxt) ((before @ [cur]) @ nxt # rest) = Some nxt"
      by (intro find_split) simp_all
    then have f: "find (\<lambda>x. sentence_id x = sentence_id nxt) (sentences s) = Some nxt"
      by (simp add: assms(1))
    have ah: "activeSentence ?h = Some nxt"
      by (simp add: activeSentence_def hf f)
    have "activeSentence (step (TimeUpdate t) s) = Some nxt"
      by (simp add: activeSentence_def basic f)
    moreover have "media_currentTime (sentence_changed ?h) = startTime nxt"
    proof -
      have "activeSentence (?h\<lparr>currentLoop := 0, isDelaying := False\<rparr>) = activeSentence ?h"
        by (rule activeSentence_cong) simp_all
      moreover have "media_currentTime (handleSentenceClick nxt ?s1) = startTime nxt"
        by (simp add: handleSentenceClick_def media_play_def)
      ultimately show ?thesis
        by (simp add: sentence_changed_def Let_def ah)
    qed
    then have "media_currentTime (step (TimeUpdate t) s) = startTime nxt"
      using st hf by auto
    ultimately show ?thesis by simp
  qed
  from basic uniq show ?thesis by blast
qed


theorem auto_advance_witness:
  "sentences (playing [sentence_a, sentence_b] 1 True) = [] @ sentence_a # sentence_b # []
   \<and> currentSentenceId (playing [sentence_a, sentence_b] 1 True) = Some (sentence_id sentence_a)
   \<and> endTime sentence_a \<le> 2
   \<and> autoPlayNext (settings (playing [sentence_a, sentence_b] 1 True))
   \<and> distinct (map sentence_id (sentences (playing [sentence_a, sentence_b] 1 True)))
   \<and> activeSentence (step (TimeUpdate 2) (playing [sentence_a, sentence_b] 1 True)) = Some sentence_b
   \<and> currentLoop (step (TimeUpdate 2) (playing [sentence_a, sentence_b] 1 True)) = 0
   \<and> \<not> media_paused (step (TimeUpdate 2) (playing [sentence_a, sentence_b] 1 True))
   \<and> media_currentTime (step (TimeUpdate 2) (playing [sentence_a, sentence_b] 1 True)) = 5"
proof -
  let ?s = "playing [sentence_a, sentence_b] 1 True"
  have h1: "sentences ?s = [] @ sentence_a # sentence_b # []" by (simp add: playing_def)
  have h2: "\<forall>x \<in> set []. sentence_id x \<noteq> sentence_id sentence_a" by simp
  have h3: "currentSentenceId ?s = Some (sentence_id sentence_a)"
    by (simp add: playing_def sentence_a_def)
  have h4: "\<not> isDelaying ?s" by (simp add: playing_def)
  have h5: "endTime sentence_a \<le> 2" by (simp add: sentence_a_def)
  have h6: "loopCountOption (settings ?s) \<noteq> - 1" by (simp add: playing_def)
  have h7: "loopCountOption (settings ?s) - 1 \<le> currentLoop ?s" by (simp add: playing_def)
  have h8: "autoPlayNext (settings ?s)" by (simp add: playing_def)
  have d: "distinct (map sentence_id (sentences ?s))"
    by (simp add: playing_def sentence_a_def sentence_b_def)
  have b: "startTime sentence_b = 5" by (simp add: sentence_b_def)
  show ?thesis
    using auto_advance[OF h1 h2 h3 h4 h5 h6 h7 h8] h1 h3 h5 h8 d b by simp
qed

text \<open>
  The final branch with \<open>autoPlayNext\<close> off: the engine pauses the media, sets it to the
  start of the active sentence and sets the loops done to 0.
\<close>

lemma terminal_branch_autoPlayNext_off:
  assumes "activeSentence s = Some cur" and "\<not> isDelaying s" and "endTime cur \<le> t"
    and "loopCountOption (settings s) \<noteq> - 1"
    and "loopCountOption (settings s) - 1 \<le> currentLoop s"
    and "\<not> autoPlayNext (settings s)"
  shows "media_paused (step (TimeUpdate t) s)
       \<and> media_currentTime (step (TimeUpdate t) s) = startTime cur
       \<and> currentLoop (step (TimeUpdate t) s) = 0
       \<and> timers (step (TimeUpdate t) s) = timers s"
proof -
  let ?s1 = "s\<lparr>media_currentTime := t, internalTime := t, page_currentTime := t\<rparr>"
  let ?h = "(media_pause ?s1)\<lparr>media_currentTime := startTime cur, currentLoop := 0, isPlaying := False\<rparr>"
  have "activeSentence (s\<lparr>media_currentTime := t\<rparr>) = activeSentence s"
    by (rule activeSentence_cong) simp_all
  then have a: "activeSentence (s\<lparr>media_currentTime := t\<rparr>) = Some cur"
    using assms(1) by simp
  have h: "handle (TimeUpdate t) s = ?h"
    using assms(2-6) by (simp add: handleTimeUpdate_def a Let_def below_last_loop_iff)
  have "activeSentence (handle (TimeUpdate t) s) = activeSentence s"
    unfolding h by (rule activeSentence_cong) (simp_all add: media_pause_def)
  then have "step (TimeUpdate t) s = handle (TimeUpdate t) s"
    by (rule step_same_sentence)
  then have "step (TimeUpdate t) s = ?h" by (simp only: h)
  then show ?thesis by (simp add: media_pause_def)
qed

text \<open>
  Claim C1 asks the engine to pause and to go back to the start of the active sentence
  when the loop budget is used up and no sentence follows. With \<open>autoPlayNext\<close> on, the
  default, and a single sentence from 1 to 2 seconds, the engine does neither: the test
  \<open>hasNextSentence\<close> is always true, \<open>handleNext\<close> finds no sentence to go to, and the
  media plays on past 2.
\<close>

theorem last_segment_keeps_playing:
  "activeSentence (playing [sentence_a] 1 True) = Some sentence_a
   \<and> sentences (playing [sentence_a] 1 True) = [sentence_a]
   \<and> autoPlayNext (settings (playing [sentence_a] 1 True))
   \<and> \<not> below_last_loop (currentLoop (playing [sentence_a] 1 True))
          (maxLoops (settings (playing [sentence_a] 1 True)))
   \<and> endTime sentence_a \<le> 2
   \<and> \<not> media_paused (step (TimeUpdate 2) (playing [sentence_a] 1 True))
   \<and> media_currentTime (step (TimeUpdate 2) (playing [sentence_a] 1 True)) = 2
   \<and> startTime sentence_a = 1
   \<and> activeSentence (step (TimeUpdate 2) (playing [sentence_a] 1 True)) = Some sentence_a
   \<and> \<not> media_paused (run [TimeUpdate 2, TimeUpdate 3] (playing [sentence_a] 1 True))
   \<and> media_currentTime (run [TimeUpdate 2, TimeUpdate 3] (playing [sentence_a] 1 True)) = 3"
  by code_simp

lemma timers_handleSentenceClick: "timers (handleSentenceClick x s) = timers s"
  by (simp add: handleSentenceClick_def media_play_def)

lemma timers_sentence_changed: "timers (sentence_changed s) = timers s"
  by (simp add: sentence_changed_def Let_def split: option.split)

lemma timers_commit: "timers (commit r s) = timers s"
  by (simp add: commit_def timers_sentence_changed)

lemma sentence_changed_resets:
  "currentLoop (sentence_changed s) = 0 \<and> \<not> isDelaying (sentence_changed s)"
  by (simp add: sentence_changed_def Let_def split: option.split)

text \<open>
  Claim C4 says that a change of the active sentence cancels the pending timer. The
  engine has no cancellation: after sentence \<open>b\<close> is selected during the delay of
  sentence \<open>a\<close>, the timer is still pending, and when it fires the media is set to the
  start of \<open>a\<close> while \<open>b\<close> is active.
\<close>

theorem stale_timer_counterexample:
  "isDelaying (run [TimeUpdate 2] (playing [sentence_a, sentence_b] 3 False))
   \<and> timers (run [TimeUpdate 2] (playing [sentence_a, sentence_b] 3 False))
        = [\<lparr>timer_delay = 200, timer_sentence = sentence_a\<rparr>]
   \<and> activeSentence (run [TimeUpdate 2, SentenceClick sentence_b] (playing [sentence_a, sentence_b] 3 False))
        = Some sentence_b
   \<and> timers (run [TimeUpdate 2, SentenceClick sentence_b] (playing [sentence_a, sentence_b] 3 False))
        = [\<lparr>timer_delay = 200, timer_sentence = sentence_a\<rparr>]
   \<and> activeSentence (run [TimeUpdate 2, SentenceClick sentence_b, TimerFires 0]
        (playing [sentence_a, sentence_b] 3 False)) = Some sentence_b
   \<and> media_currentTime (run [TimeUpdate 2, SentenceClick sentence_b, TimerFires 0]
        (playing [sentence_a, sentence_b] 3 False)) = startTime sentence_a
   \<and> startTime sentence_a < startTime sentence_b"
  by code_simp

text \<open>
  Claim C4, amended. Selecting a sentence (by click, previous or next) and changing the
  settings leave the pending timers as they are. A change of the active sentence sets the
  loops done to 0 and ends the waiting; a change of the settings does not touch the
  waiting. A timer that fires sets the media to the start of the sentence it was
  scheduled for and plays, adds one to the loops done and ends the waiting, whichever
  sentence is active.
\<close>

theorem delay_timer_survives:
  "timers (step (SentenceClick x) s) = timers s
   \<and> timers (step Prev s) = timers s
   \<and> timers (step Next s) = timers s
   \<and> (activeSentence (step (SentenceClick x) s) \<noteq> activeSentence s \<longrightarrow>
        currentLoop (step (SentenceClick x) s) = 0 \<and> \<not> isDelaying (step (SentenceClick x) s))
   \<and> timers (step (SetSettings st) s) = timers s
   \<and> isDelaying (step (SetSettings st) s) = isDelaying s
   \<and> (k < length (timers s) \<longrightarrow>
        media_currentTime (step (TimerFires k) s) = startTime (timer_sentence (timers s ! k))
      \<and> \<not> media_paused (step (TimerFires k) s)
      \<and> currentLoop (step (TimerFires k) s) = currentLoop s + 1
      \<and> \<not> isDelaying (step (TimerFires k) s)
      \<and> activeSentence (step (TimerFires k) s) = activeSentence s)"
proof -
  have click: "timers (step (SentenceClick x) s) = timers s"
    by (simp add: step_def timers_commit timers_handleSentenceClick)
  have prev: "timers (step Prev s) = timers s"
    by (simp add: step_def timers_commit handlePrev_def Let_def timers_handleSentenceClick)
  have nxt: "timers (step Next s) = timers s"
    by (simp add: step_def timers_commit handleNext_def Let_def timers_handleSentenceClick)
  have reset: "currentLoop (step (SentenceClick x) s) = 0 \<and> \<not> isDelaying (step (SentenceClick x) s)"
    if "activeSentence (step (SentenceClick x) s) \<noteq> activeSentence s"
  proof -
    have "activeSentence (handle (SentenceClick x) s) \<noteq> activeSentence s"
      using that step_same_sentence[of "SentenceClick x" s] by auto
    then have "step (SentenceClick x) s = sentence_changed (handle (SentenceClick x) s)"
      by (simp only: step_def commit_def if_True simp_thms)
    then show ?thesis by (simp only: sentence_changed_resets simp_thms)
  qed
  have "activeSentence (s\<lparr>settings := st\<rparr>) = activeSentence s"
    by (rule activeSentence_cong) simp_all
  then have "step (SetSettings st) s = s\<lparr>settings := st\<rparr>"
    using step_same_sentence[of "SetSettings st" s] by simp
  then have sett: "timers (step (SetSettings st) s) = timers s"
    "isDelaying (step (SetSettings st) s) = isDelaying s"
    by simp_all
  have fire: "media_currentTime (step (TimerFires k) s) = startTime (timer_sentence (timers s ! k))
      \<and> \<not> media_paused (step (TimerFires k) s)
      \<and> currentLoop (step (TimerFires k) s) = currentLoop s + 1
      \<and> \<not> isDelaying (step (TimerFires k) s)
      \<and> activeSentence (step (TimerFires k) s) = activeSentence s"
    if k: "k < length (timers s)"
  proof -
    have "activeSentence (step (TimerFires k) s) = activeSentence s"
      unfolding timer_fires_step[OF k] by (rule activeSentence_cong) (simp_all add: media_play_def)
    then show ?thesis
      unfolding timer_fires_step[OF k] by (simp add: media_play_def)
  qed
  from click prev nxt reset sett fire show ?thesis by blast
qed

theorem delay_timer_survives_witness:
  "0 < length (timers (run [TimeUpdate 2] (playing [sentence_a, sentence_b] 3 False)))
   \<and> activeSentence (step (SentenceClick sentence_b) (run [TimeUpdate 2] (playing [sentence_a, sentence_b] 3 False)))
        \<noteq> activeSentence (run [TimeUpdate 2] (playing [sentence_a, sentence_b] 3 False))
   \<and> timers (step (SentenceClick sentence_b) (run [TimeUpdate 2] (playing [sentence_a, sentence_b] 3 False)))
        = [\<lparr>timer_delay = 200, timer_sentence = sentence_a\<rparr>]
   \<and> currentLoop (step (SentenceClick sentence_b) (run [TimeUpdate 2] (playing [sentence_a, sentence_b] 3 False))) = 0
   \<and> \<not> isDelaying (step (SentenceClick sentence_b) (run [TimeUpdate 2] (playing [sentence_a, sentence_b] 3 False)))
   \<and> media_currentTime (step (TimerFires 0) (run [TimeUpdate 2] (playing [sentence_a, sentence_b] 3 False))) = 1
   \<and> currentLoop (step (TimerFires 0) (run [TimeUpdate 2] (playing [sentence_a, sentence_b] 3 False))) = 1"
proof -
  let ?s = "run [TimeUpdate 2] (playing [sentence_a, sentence_b] 3 False)"
  have k: "0 < length (timers ?s)" by code_simp
  have a: "activeSentence (step (SentenceClick sentence_b) ?s) \<noteq> activeSentence ?s" by code_simp
  have t: "timers ?s = [\<lparr>timer_delay = 200, timer_sentence = sentence_a\<rparr>]" by code_simp
  have c: "currentLoop ?s = 0" by code_simp
  have b: "startTime sentence_a = 1" by (simp add: sentence_a_def)
  show ?thesis
    using delay_timer_survives[of sentence_b ?s "settings ?s" 0] k a
    by (simp add: t c b)
qed

end
